theory Spec2Isabelle
  imports Main
begin

section \<open>Values, errors and panics\<close>

text \<open>
  A Go value of interface type \<open>any\<close>, as far as \<open>convertFields\<close> looks at it: the
  type assertion \<open>fields[i].(string)\<close> only tells strings from everything else.
\<close>

datatype any_val = StringVal string | IntVal int | BoolVal bool | NilVal

text \<open>The two error values the package declares.\<close>

datatype error = ErrInvalidLogLevel | ErrInvalidLogFormat

text \<open>
  What stops a call instead of returning: the three \<open>panic(...)\<close> calls of \<open>New\<close>, and the
  two run-time panics of Go that the code could meet (an index out of range, a method
  called through a pointer that refers to nothing).
\<close>

datatype panic =
    FailedToOpenLogFile string
  | FailedToCreateLogWriter error
  | InvalidLogLevel
  | IndexOutOfRange
  | NilDereference

section \<open>The field encoder\<close>

text \<open>\<open>fields[i]\<close>: Go panics when the index is out of range.\<close>

definition index :: "'a list \<Rightarrow> nat \<Rightarrow> panic + 'a" where
  "index xs i = (if i < length xs then Inr (xs ! i) else Inl IndexOutOfRange)"

text \<open>\<open>key, ok := v.(string)\<close>: the zero value \<open>""\<close> and \<open>false\<close> when \<open>v\<close> is no string.\<close>

fun assert_string :: "any_val \<Rightarrow> string \<times> bool" where
  "assert_string (StringVal s) = (s, True)"
| "assert_string _ = ('''', False)"

text \<open>
  The loop of \<open>convertFields\<close>, from index \<open>i\<close> with the map built so far:
  \<^verbatim>\<open>
  for i := 0; i < len(fields); i += 2 {
      if i+1 >= len(fields) { break }
      key, ok := fields[i].(string)
      if !ok { continue }
      fieldMap[key] = fields[i+1]
  }
  \<close>
  A Go slice is shorter than the largest \<open>int\<close>, so \<open>i+1\<close> and \<open>i += 2\<close> never wrap and
  \<open>i\<close> is a natural number here.
\<close>

function convertFields_loop ::
  "any_val list \<Rightarrow> nat \<Rightarrow> (string \<rightharpoonup> any_val) \<Rightarrow> panic + (string \<rightharpoonup> any_val)" where
  "convertFields_loop fields i fieldMap =
     (if i < length fields then
        (if i + 1 \<ge> length fields then Inr fieldMap
         else
           (case index fields i of
              Inl p \<Rightarrow> Inl p
            | Inr x \<Rightarrow>
                (case assert_string x of
                   (key, ok) \<Rightarrow>
                     if \<not> ok then convertFields_loop fields (i + 2) fieldMap
                     else
                       (case index fields (i + 1) of
                          Inl p \<Rightarrow> Inl p
                        | Inr v \<Rightarrow> convertFields_loop fields (i + 2) (fieldMap(key \<mapsto> v))))))
      else Inr fieldMap)"
  by pat_completeness auto
termination
  by (relation "measure (\<lambda>(fields, i, fieldMap). length fields - i)") auto

declare convertFields_loop.simps [simp del]

definition convertFields :: "any_val list \<Rightarrow> panic + (string \<rightharpoonup> any_val)" where
  "convertFields fields = convertFields_loop fields 0 Map.empty"

text \<open>
  The spec's words for the same thing: the consecutive pairs of the sequence (an unpaired
  last element belongs to no pair), of which those with a string first are kept.
\<close>

fun pairs :: "'a list \<Rightarrow> ('a \<times> 'a) list" where
  "pairs (x # y # xs) = (x, y) # pairs xs"
| "pairs _ = []"

fun string_keyed :: "(any_val \<times> any_val) list \<Rightarrow> (string \<times> any_val) list" where
  "string_keyed [] = []"
| "string_keyed ((StringVal k, v) # ps) = (k, v) # string_keyed ps"
| "string_keyed (_ # ps) = string_keyed ps"

section \<open>Strings, writers and the environment\<close>

text \<open>
  Go's \<open>strings.ToLower\<close> is aware of Unicode. On an ASCII string it moves the bytes
  \<open>'A'..'Z'\<close> (65..90) up by \<open>'a' - 'A'\<close> and keeps every other byte; on any other
  string it lower-cases rune by rune, and a byte that is no UTF-8 becomes U+FFFD. \<open>ToLower\<close>
  is the first of the two, for every byte string. It stands for \<open>strings.ToLower\<close> only
  where \<open>createWriter\<close> compares the result with \<open>json\<close> and \<open>console\<close>: the only runes
  outside ASCII that lower-case into ASCII are U+0130 (to \<open>i\<close>) and U+212A (to \<open>k\<close>),
  neither a letter of the two names, so a string with a byte outside ASCII equals neither
  name under either function, and the comparison comes out the same. Where the lower-cased
  string itself is used (the level handed to the engine's parser), the operations take
  \<open>strings.ToLower\<close> as their parameter \<open>toLower\<close>.
\<close>

definition toLower_byte :: "char \<Rightarrow> char" where
  "toLower_byte c =
     (let n = (of_char c :: nat) in if 65 \<le> n \<and> n \<le> 90 then char_of (n + 32) else c)"

definition ToLower :: "string \<Rightarrow> string" where
  "ToLower s = map toLower_byte s"

abbreviation LogFormatJSON :: string where "LogFormatJSON \<equiv> ''json''"
abbreviation LogFormatConsole :: string where "LogFormatConsole \<equiv> ''console''"
abbreviation LevelInfo :: string where "LevelInfo \<equiv> ''info''"
abbreviation RFC3339 :: string where "RFC3339 \<equiv> ''2006-01-02T15:04:05Z07:00''"

text \<open>
  An \<open>io.Writer\<close>: standard output, the engine's discarding writer, a file opened by
  \<open>os.OpenFile\<close>, any other writer of the caller's (told apart by a number), or the
  engine's \<open>ConsoleWriter\<close> struct with the three fields \<open>createWriter\<close> sets.
\<close>

datatype Writer =
    Stdout
  | Discard
  | File string
  | Sink nat
  | ConsoleWriter (Out: Writer) (TimeFormat: string) (NoColor: bool)

text \<open>
  The process environment; \<open>os.Getenv\<close> gives the empty string for a variable that is
  not set.
\<close>

type_synonym environ = "string \<rightharpoonup> string"

definition Getenv :: "environ \<Rightarrow> string \<Rightarrow> string" where
  "Getenv env key = (case env key of None \<Rightarrow> [] | Some v \<Rightarrow> v)"

section \<open>The writer selector\<close>

text \<open>
  \<open>createWriter\<close>: the \<open>switch\<close> on the lower-cased format. In the console case the
  struct is built with \<open>Out\<close> and \<open>TimeFormat\<close>, and \<open>NoColor\<close> is set when the
  variable \<open>NO_COLOR\<close> of the environment, read here, is not empty.
\<close>

definition createWriter :: "environ \<Rightarrow> string \<Rightarrow> Writer \<Rightarrow> string \<Rightarrow> error + Writer" where
  "createWriter env format out timeFormat =
     (let f = ToLower format in
      if f = LogFormatJSON then Inr out
      else if f = LogFormatConsole then
        (let cw = ConsoleWriter out timeFormat False;
             cw = (if Getenv env ''NO_COLOR'' \<noteq> [] then ConsoleWriter (Out cw) (TimeFormat cw) True
                   else cw)
         in Inr cw)
      else Inl ErrInvalidLogFormat)"

section \<open>The engine, as the facade uses it\<close>

text \<open>
  The engine (zerolog) is not part of this package. Its levels are small integers, from
  \<open>TraceLevel = -1\<close> to \<open>Disabled = 7\<close>; its \<open>ParseLevel\<close> is a parameter of the
  operations that call it (\<open>None\<close> when it returns an error), and nothing is assumed of
  which strings it accepts.
\<close>

type_synonym Level = int

abbreviation TraceLevel :: Level where "TraceLevel \<equiv> -1"
abbreviation DebugLevel :: Level where "DebugLevel \<equiv> 0"
abbreviation InfoLevel :: Level where "InfoLevel \<equiv> 1"
abbreviation WarnLevel :: Level where "WarnLevel \<equiv> 2"
abbreviation ErrorLevel :: Level where "ErrorLevel \<equiv> 3"
abbreviation FatalLevel :: Level where "FatalLevel \<equiv> 4"
abbreviation PanicLevel :: Level where "PanicLevel \<equiv> 5"
abbreviation NoLevel :: Level where "NoLevel \<equiv> 6"
abbreviation Disabled :: Level where "Disabled \<equiv> 7"

datatype hook = timestampHook

text \<open>
  A \<open>zerolog.Logger\<close> is a struct, copied whenever it is assigned: its writer, its minimum
  level, the field maps attached by \<open>With().Fields(m)\<close> in order, and its hooks.
\<close>

record zerolog_Logger =
  zl_w :: Writer
  zl_level :: Level
  zl_context :: "(string \<rightharpoonup> any_val) list"
  zl_hooks :: "hook list"

text \<open>\<open>zerolog.New(w)\<close>, \<open>l.With().Timestamp().Logger()\<close>, \<open>l.Level(lvl)\<close>, \<open>l.GetLevel()\<close>.\<close>

definition zerolog_New :: "Writer \<Rightarrow> zerolog_Logger" where
  "zerolog_New w = \<lparr>zl_w = w, zl_level = TraceLevel, zl_context = [], zl_hooks = []\<rparr>"

definition With_Timestamp :: "zerolog_Logger \<Rightarrow> zerolog_Logger" where
  "With_Timestamp l = l\<lparr>zl_hooks := zl_hooks l @ [timestampHook]\<rparr>"

definition Level :: "zerolog_Logger \<Rightarrow> Level \<Rightarrow> zerolog_Logger" where
  "Level l lvl = l\<lparr>zl_level := lvl\<rparr>"

definition GetLevel :: "zerolog_Logger \<Rightarrow> Level" where
  "GetLevel l = zl_level l"

text \<open>\<open>l.Output(w)\<close>: a new logger on \<open>w\<close> that keeps the level, the hooks and the context.\<close>

definition Output :: "zerolog_Logger \<Rightarrow> Writer \<Rightarrow> zerolog_Logger" where
  "Output l w = (zerolog_New w)\<lparr>zl_level := zl_level l, zl_hooks := zl_hooks l,
                                 zl_context := zl_context l\<rparr>"

text \<open>\<open>l.With().Fields(m).Logger()\<close>: a copy with the fields of \<open>m\<close> added to its context.\<close>

definition With_Fields :: "zerolog_Logger \<Rightarrow> (string \<rightharpoonup> any_val) \<Rightarrow> zerolog_Logger" where
  "With_Fields l m = l\<lparr>zl_context := zl_context l @ [m]\<rparr>"

text \<open>
  A \<open>context.Context\<close> is an immutable chain of bindings: \<open>context.WithValue\<close> puts one
  binding over a parent and changes nothing of the parent. The engine binds a logger under
  a key of its own; any other binding is of no concern to it.
\<close>

datatype "context" =
    Background
  | WithLogger "context" zerolog_Logger
  | WithOther "context" string any_val

text \<open>\<open>ctx.Value(ctxKey{}).(*Logger)\<close>: the nearest logger binding.\<close>

fun ctx_Value :: "context \<Rightarrow> zerolog_Logger option" where
  "ctx_Value Background = None"
| "ctx_Value (WithLogger parent l) = Some l"
| "ctx_Value (WithOther parent k v) = ctx_Value parent"

text \<open>
  The engine's \<open>l.WithContext(ctx)\<close> binds \<open>l\<close> over \<open>ctx\<close>, but returns \<open>ctx\<close> itself for
  a disabled \<open>l\<close> when \<open>ctx\<close> holds no logger yet. \<open>zerolog.Ctx(ctx)\<close> is the logger bound
  in \<open>ctx\<close>, and the engine's disabled logger (\<open>New(nil).Level(Disabled)\<close>, which writes to
  the discarding writer) when there is none; the engine's \<open>DefaultContextLogger\<close> stays
  unset, as this package never assigns it.
\<close>

definition zerolog_WithContext :: "zerolog_Logger \<Rightarrow> context \<Rightarrow> context" where
  "zerolog_WithContext l ctx =
     (case ctx_Value ctx of
        None \<Rightarrow> if zl_level l = Disabled then ctx else WithLogger ctx l
      | Some _ \<Rightarrow> WithLogger ctx l)"

definition disabledLogger :: zerolog_Logger where
  "disabledLogger = Level (zerolog_New Discard) Disabled"

definition Ctx :: "context \<Rightarrow> zerolog_Logger" where
  "Ctx ctx = (case ctx_Value ctx of Some l \<Rightarrow> l | None \<Rightarrow> disabledLogger)"

text \<open>
  One record handed to a writer: \<open>l.Info().Err(err).Fields(m).Msg(msg)\<close> and its like. An
  event below the logger's level, or below the engine's global level, is never written.
\<close>

record event =
  ev_level :: Level
  ev_hooks :: "hook list"
  ev_context :: "(string \<rightharpoonup> any_val) list"
  ev_err :: "string option"
  ev_fields :: "string \<rightharpoonup> any_val"
  ev_msg :: string

definition should :: "Level \<Rightarrow> zerolog_Logger \<Rightarrow> Level \<Rightarrow> bool" where
  "should globalLevel l lvl = (\<not> (lvl < zl_level l \<or> lvl < globalLevel))"

definition newEvent ::
  "zerolog_Logger \<Rightarrow> Level \<Rightarrow> string option \<Rightarrow> (string \<rightharpoonup> any_val) \<Rightarrow> string \<Rightarrow> event" where
  "newEvent l lvl err m msg =
     \<lparr>ev_level = lvl, ev_hooks = zl_hooks l, ev_context = zl_context l, ev_err = err,
      ev_fields = m, ev_msg = msg\<rparr>"

section \<open>The facade\<close>

text \<open>
  \<open>config\<close> and \<open>ZeroLogger\<close> are always held through pointers, and \<open>WithFields\<close> and
  \<open>FromContext\<close> hand the receiver's \<open>config\<close> pointer on to the facade they return. So
  both live in a store: an address is an index into the list of objects made so far, and
  making an object appends it. The state also holds the engine's two globals the facade
  depends on, and what has been written to which writer.
\<close>

type_synonym addr = nat

record config =
  level :: string
  logFormat :: string
  timeFormat :: string
  out :: Writer

record ZeroLogger =
  logger :: zerolog_Logger
  config :: addr

record state =
  loggers :: "ZeroLogger list"
  configs :: "config list"
  TimeFieldFormat :: string
  GlobalLevel :: Level
  written :: "(Writer \<times> event) list"

definition deref :: "'a list \<Rightarrow> addr \<Rightarrow> 'a option" where
  "deref heap a = (if a < length heap then Some (heap ! a) else None)"

text \<open>
  The \<open>option\<close> values a caller can make: the type is not exported, so they are the
  closures the four \<open>With...\<close> functions return, each setting one field of the \<open>config\<close>.
\<close>

datatype option_fn =
    WithLevel string
  | WithLogFormat string
  | WithTimeFormat string
  | WithOutput Writer

fun apply_option :: "option_fn \<Rightarrow> config \<Rightarrow> config" where
  "apply_option (WithLevel l) c = c\<lparr>level := l\<rparr>"
| "apply_option (WithLogFormat format) c = c\<lparr>logFormat := format\<rparr>"
| "apply_option (WithTimeFormat format) c = c\<lparr>timeFormat := format\<rparr>"
| "apply_option (WithOutput w) c = c\<lparr>out := w\<rparr>"

definition defaults :: config where
  "defaults = \<lparr>level = LevelInfo, logFormat = LogFormatJSON, timeFormat = RFC3339, out = Stdout\<rparr>"

text \<open>
  \<open>New\<close>. \<open>toLower\<close> is \<open>strings.ToLower\<close>, \<open>parseLevel\<close> is the engine's
  \<open>ParseLevel\<close> and \<open>openFile\<close> is \<open>os.OpenFile\<close> with the flags and mode of the source
  (the text of its error, or the file). The loop over the options is a left fold. A panic
  ends the call.
\<close>

definition New ::
  "(string \<Rightarrow> string) \<Rightarrow> (string \<Rightarrow> Level option) \<Rightarrow> (string \<Rightarrow> string + Writer) \<Rightarrow>
   environ \<Rightarrow> option_fn list \<Rightarrow> state \<Rightarrow> panic + (addr \<times> state)" where
  "New toLower parseLevel openFile env options s =
     (let config = defaults;
          config = (let level = Getenv env ''LOG_LEVEL'' in
                    if level \<noteq> [] then config\<lparr>level := level\<rparr> else config);
          config = (let format = Getenv env ''LOG_FORMAT'' in
                    if format \<noteq> [] then config\<lparr>logFormat := format\<rparr> else config);
          file = Getenv env ''LOG_FILE''
      in
      case (if file \<noteq> [] then
              (case openFile file of
                 Inl err \<Rightarrow> Inl (FailedToOpenLogFile err)
               | Inr f \<Rightarrow> Inr (config\<lparr>out := f\<rparr>))
            else Inr config) of
        Inl p \<Rightarrow> Inl p
      | Inr config \<Rightarrow>
          (let config = foldl (\<lambda>c opt. apply_option opt c) config options;
               s = s\<lparr>TimeFieldFormat := timeFormat config\<rparr>
           in
           case createWriter env (logFormat config) (out config) (timeFormat config) of
             Inl err \<Rightarrow> Inl (FailedToCreateLogWriter err)
           | Inr outWriter \<Rightarrow>
               (let logger = With_Timestamp (zerolog_New outWriter) in
                case parseLevel (toLower (level config)) of
                  None \<Rightarrow> Inl InvalidLogLevel
                | Some logLevel \<Rightarrow>
                    Inr (length (loggers s),
                         s\<lparr>loggers := loggers s @
                              [\<lparr>logger = Level logger logLevel, config = length (configs s)\<rparr>],
                           configs := configs s @ [config]\<rparr>))))"

text \<open>
  The emitting methods: \<open>z.logger.Info().Fields(convertFields(fields...)).Msg(msg)\<close>, and
  with \<open>.Err(err)\<close> for \<open>Error\<close> (\<open>None\<close> is a \<open>nil\<close> error); \<open>fs\<close> are the \<open>fields\<close>.
\<close>

definition emit ::
  "addr \<Rightarrow> Level \<Rightarrow> string option \<Rightarrow> string \<Rightarrow> any_val list \<Rightarrow> state \<Rightarrow> panic + state" where
  "emit z lvl err msg fs s =
     (case deref (loggers s) z of
        None \<Rightarrow> Inl NilDereference
      | Some zl \<Rightarrow>
          (case convertFields fs of
             Inl p \<Rightarrow> Inl p
           | Inr m \<Rightarrow>
               if should (GlobalLevel s) (logger zl) lvl then
                 Inr (s\<lparr>written := written s @
                        [(zl_w (logger zl), newEvent (logger zl) lvl err m msg)]\<rparr>)
               else Inr s))"

definition Trace :: "addr \<Rightarrow> string \<Rightarrow> any_val list \<Rightarrow> state \<Rightarrow> panic + state" where
  "Trace z msg fs s = emit z TraceLevel None msg fs s"

definition Debug :: "addr \<Rightarrow> string \<Rightarrow> any_val list \<Rightarrow> state \<Rightarrow> panic + state" where
  "Debug z msg fs s = emit z DebugLevel None msg fs s"

definition Info :: "addr \<Rightarrow> string \<Rightarrow> any_val list \<Rightarrow> state \<Rightarrow> panic + state" where
  "Info z msg fs s = emit z InfoLevel None msg fs s"

definition Warn :: "addr \<Rightarrow> string \<Rightarrow> any_val list \<Rightarrow> state \<Rightarrow> panic + state" where
  "Warn z msg fs s = emit z WarnLevel None msg fs s"

definition Error ::
  "addr \<Rightarrow> string option \<Rightarrow> string \<Rightarrow> any_val list \<Rightarrow> state \<Rightarrow> panic + state" where
  "Error z err msg fs s = emit z ErrorLevel err msg fs s"

text \<open>\<open>WithFields\<close>: a new facade, with the receiver's \<open>config\<close> pointer.\<close>

definition WithFields :: "addr \<Rightarrow> any_val list \<Rightarrow> state \<Rightarrow> panic + (addr \<times> state)" where
  "WithFields z fs s =
     (case deref (loggers s) z of
        None \<Rightarrow> Inl NilDereference
      | Some zl \<Rightarrow>
          (case convertFields fs of
             Inl p \<Rightarrow> Inl p
           | Inr m \<Rightarrow>
               Inr (length (loggers s),
                    s\<lparr>loggers := loggers s @
                         [\<lparr>logger = With_Fields (logger zl) m, config = config zl\<rparr>]\<rparr>)))"

definition WithContext :: "addr \<Rightarrow> context \<Rightarrow> state \<Rightarrow> panic + context" where
  "WithContext z ctx s =
     (case deref (loggers s) z of
        None \<Rightarrow> Inl NilDereference
      | Some zl \<Rightarrow> Inr (zerolog_WithContext (logger zl) ctx))"

definition FromContext :: "addr \<Rightarrow> context \<Rightarrow> state \<Rightarrow> panic + (addr \<times> state)" where
  "FromContext z ctx s =
     (case deref (loggers s) z of
        None \<Rightarrow> Inl NilDereference
      | Some zl \<Rightarrow>
          (let l = Ctx ctx in
           if GetLevel l = Disabled then
             Inr (length (loggers s),
                  s\<lparr>loggers := loggers s @ [\<lparr>logger = logger zl, config = config zl\<rparr>]\<rparr>)
           else
             Inr (length (loggers s),
                  s\<lparr>loggers := loggers s @ [\<lparr>logger = l, config = config zl\<rparr>]\<rparr>)))"

text \<open>
  \<open>SetLevel\<close> and \<open>SetLogFormat\<close> return the error (\<open>None\<close> is \<open>nil\<close>) and the state.
  \<open>SetLevel\<close> parses the level before it touches the receiver, so on a level that does not
  parse it returns the error whatever \<open>z\<close> is; \<open>SetLogFormat\<close> reads \<open>z.config\<close> for the
  arguments of \<open>createWriter\<close>, so it reaches the receiver first.
\<close>

definition SetLevel ::
  "(string \<Rightarrow> string) \<Rightarrow> (string \<Rightarrow> Level option) \<Rightarrow> addr \<Rightarrow> string \<Rightarrow> state \<Rightarrow>
   panic + (error option \<times> state)" where
  "SetLevel toLower parseLevel z lvl s =
     (case parseLevel (toLower lvl) of
        None \<Rightarrow> Inr (Some ErrInvalidLogLevel, s)
      | Some logLevel \<Rightarrow>
          (case deref (loggers s) z of
             None \<Rightarrow> Inl NilDereference
           | Some zl \<Rightarrow>
               Inr (None, s\<lparr>loggers := (loggers s)[z := zl\<lparr>logger := Level (logger zl) logLevel\<rparr>]\<rparr>)))"

definition SetLogFormat ::
  "environ \<Rightarrow> addr \<Rightarrow> string \<Rightarrow> state \<Rightarrow> panic + (error option \<times> state)" where
  "SetLogFormat env z format s =
     (case deref (loggers s) z of
        None \<Rightarrow> Inl NilDereference
      | Some zl \<Rightarrow>
          (case deref (configs s) (config zl) of
             None \<Rightarrow> Inl NilDereference
           | Some c \<Rightarrow>
               (case createWriter env format (out c) (timeFormat c) of
                  Inl err \<Rightarrow> Inr (Some err, s)
                | Inr outWriter \<Rightarrow>
                    Inr (None,
                         s\<lparr>loggers := (loggers s)[z := zl\<lparr>logger := Output (logger zl) outWriter\<rparr>],
                           configs := (configs s)[config zl := c\<lparr>logFormat := format\<rparr>]\<rparr>))))"

section \<open>The layers of the configuration, in the spec's words\<close>

text \<open>
  What an option sets, and the value a list of options gives a field explicitly: that of
  the last option that sets the field, if any does.
\<close>

fun option_level :: "option_fn \<Rightarrow> string option" where
  "option_level (WithLevel l) = Some l"
| "option_level _ = None"

fun option_logFormat :: "option_fn \<Rightarrow> string option" where
  "option_logFormat (WithLogFormat f) = Some f"
| "option_logFormat _ = None"

fun option_timeFormat :: "option_fn \<Rightarrow> string option" where
  "option_timeFormat (WithTimeFormat f) = Some f"
| "option_timeFormat _ = None"

fun option_out :: "option_fn \<Rightarrow> Writer option" where
  "option_out (WithOutput w) = Some w"
| "option_out _ = None"

fun explicit :: "(option_fn \<Rightarrow> 'a option) \<Rightarrow> option_fn list \<Rightarrow> 'a option" where
  "explicit sel [] = None"
| "explicit sel (opt # opts) =
     (case explicit sel opts of
        Some v \<Rightarrow> Some v
      | None \<Rightarrow> sel opt)"

section \<open>Concrete instances\<close>

text \<open>
  For the examples: a state in which nothing has been made yet, a level parser that knows
  the engine's names of its levels, and a file system in which every file opens. Their
  strings are ASCII, on which \<open>strings.ToLower\<close> is \<open>ToLower\<close>.
\<close>

definition start :: state where
  "start = \<lparr>loggers = [], configs = [], TimeFieldFormat = RFC3339, GlobalLevel = TraceLevel,
            written = []\<rparr>"

definition level_names :: "string \<Rightarrow> Level option" where
  "level_names n =
     map_of [(''trace'', TraceLevel), (''debug'', DebugLevel), (''info'', InfoLevel),
             (''warn'', WarnLevel), (''error'', ErrorLevel), (''fatal'', FatalLevel),
             (''panic'', PanicLevel),
             (''disabled'', Disabled)] n"

definition every_file_opens :: "string \<Rightarrow> string + Writer" where
  "every_file_opens path = Inr (File path)"

text \<open>
  \<open>parent_state\<close>: what \<open>New()\<close> makes from \<open>start\<close> in an empty environment, one facade
  at address 0. \<open>family_state\<close>: after \<open>WithFields("app", "x")\<close> on it, the child at
  address 1 on the parent's \<open>config\<close>. \<open>pair_state\<close>: two facades made by \<open>New\<close>, the
  first with \<open>WithLevel("disabled")\<close>, each with a \<open>config\<close> of its own.
\<close>

definition parent_state :: state where
  "parent_state =
     \<lparr>loggers = [\<lparr>logger = \<lparr>zl_w = Stdout, zl_level = InfoLevel, zl_context = [],
                              zl_hooks = [timestampHook]\<rparr>,
                   config = 0\<rparr>],
      configs = [defaults], TimeFieldFormat = RFC3339, GlobalLevel = TraceLevel, written = []\<rparr>"

definition family_state :: state where
  "family_state =
     parent_state\<lparr>loggers := loggers parent_state @
       [\<lparr>logger = \<lparr>zl_w = Stdout, zl_level = InfoLevel,
                    zl_context = [[''app'' \<mapsto> StringVal ''x'']], zl_hooks = [timestampHook]\<rparr>,
         config = 0\<rparr>]\<rparr>"

definition pair_state :: state where
  "pair_state =
     \<lparr>loggers = [\<lparr>logger = \<lparr>zl_w = Stdout, zl_level = Disabled, zl_context = [],
                              zl_hooks = [timestampHook]\<rparr>,
                   config = 0\<rparr>,
                  \<lparr>logger = \<lparr>zl_w = Stdout, zl_level = InfoLevel, zl_context = [],
                              zl_hooks = [timestampHook]\<rparr>,
                   config = 1\<rparr>],
      configs = [defaults\<lparr>level := ''disabled''\<rparr>, defaults],
      TimeFieldFormat = RFC3339, GlobalLevel = TraceLevel, written = []\<rparr>"

text \<open>What a facade sees as the format of its configuration.\<close>

definition observed_logFormat :: "addr \<Rightarrow> state \<Rightarrow> string option" where
  "observed_logFormat z s =
     (case deref (loggers s) z of
        None \<Rightarrow> None
      | Some zl \<Rightarrow> map_option logFormat (deref (configs s) (config zl)))"

section \<open>The field encoder builds the map of the string-keyed pairs\<close>

lemma pairs_short: "length xs \<le> 1 \<Longrightarrow> pairs xs = []"
  by (cases xs rule: pairs.cases) auto

lemma loop_stop: "length fs \<le> i + 1 \<Longrightarrow> convertFields_loop fs i m = Inr m"
  by (subst convertFields_loop.simps) simp

lemma loop_string:
  "i + 1 < length fs \<Longrightarrow> fs ! i = StringVal k \<Longrightarrow>
   convertFields_loop fs i m = convertFields_loop fs (i + 2) (m(k \<mapsto> fs ! (i + 1)))"
  by (subst convertFields_loop.simps) (simp add: index_def)

lemma loop_other:
  "i + 1 < length fs \<Longrightarrow> \<not> snd (assert_string (fs ! i)) \<Longrightarrow>
   convertFields_loop fs i m = convertFields_loop fs (i + 2) m"
  by (subst convertFields_loop.simps) (auto simp: index_def split: prod.splits)

lemma string_keyed_other:
  "\<not> snd (assert_string x) \<Longrightarrow> string_keyed ((x, v) # ps) = string_keyed ps"
  by (cases x) simp_all

lemma drop_two:
  "i + 1 < length xs \<Longrightarrow> drop i xs = xs ! i # xs ! (i + 1) # drop (i + 2) xs"
  by (metis Cons_nth_drop_Suc Suc_eq_plus1 add_2_eq_Suc' add_lessD1)

lemma loop_pairs:
  "convertFields_loop fs i m = Inr (m ++ map_of (rev (string_keyed (pairs (drop i fs)))))"
proof (induction "length fs - i" arbitrary: i m rule: less_induct)
  case less
  show ?case
  proof (cases "i + 1 < length fs")
    case False
    then have "pairs (drop i fs) = []"
      by (intro pairs_short) simp
    with False show ?thesis by (simp add: loop_stop)
  next
    case True
    note d = drop_two [OF True]
    from True have smaller: "length fs - (i + 2) < length fs - i" by simp
    show ?thesis
    proof (cases "fs ! i")
      case (StringVal k)
      with True d less [OF smaller] show ?thesis
        by (simp add: loop_string map_add_upd_left)
    next
      case (IntVal n)
      with True d less [OF smaller] show ?thesis
        by (simp add: loop_other)
    next
      case (BoolVal b)
      with True d less [OF smaller] show ?thesis
        by (simp add: loop_other)
    next
      case NilVal
      with True d less [OF smaller] show ?thesis
        by (simp add: loop_other)
    qed
  qed
qed

lemma convertFields_pairs:
  "convertFields fs = Inr (map_of (rev (string_keyed (pairs fs))))"
  by (simp add: convertFields_def loop_pairs)

lemma map_of_string_keyed:
  "map_of (rev (string_keyed ps)) k = map_of (rev ps) (StringVal k)"
proof (induction ps rule: string_keyed.induct)
  case 1
  then show ?case by simp
next
  case (2 k' v ps)
  then show ?case by (simp add: map_add_def split: option.splits)
qed (simp_all add: map_add_def split: option.splits)

lemma length_pairs: "length (pairs xs) = length xs div 2"
  by (induction xs rule: pairs.induct) simp_all

lemma nth_pairs: "2 * j + 1 < length xs \<Longrightarrow> pairs xs ! j = (xs ! (2 * j), xs ! (2 * j + 1))"
proof (induction xs arbitrary: j rule: pairs.induct)
  case (1 x y xs)
  then show ?case by (cases j) simp_all
qed simp_all

lemma map_of_rev_last:
  "map_of (rev ps) k = Some v \<longleftrightarrow>
     (\<exists>j < length ps. ps ! j = (k, v) \<and> (\<forall>j'. j < j' \<and> j' < length ps \<longrightarrow> fst (ps ! j') \<noteq> k))"
proof (induction ps rule: rev_induct)
  case Nil
  then show ?case by simp
next
  case (snoc p ps)
  show ?case
  proof (cases "fst p = k")
    case True
    have "(\<exists>j < Suc (length ps). (ps @ [p]) ! j = (k, v) \<and>
             (\<forall>j'. j < j' \<and> j' < Suc (length ps) \<longrightarrow> fst ((ps @ [p]) ! j') \<noteq> k))
          \<longleftrightarrow> p = (k, v)"
    proof
      assume "\<exists>j < Suc (length ps). (ps @ [p]) ! j = (k, v) \<and>
             (\<forall>j'. j < j' \<and> j' < Suc (length ps) \<longrightarrow> fst ((ps @ [p]) ! j') \<noteq> k)"
      then obtain j where j: "j < Suc (length ps)" "(ps @ [p]) ! j = (k, v)"
        "\<forall>j'. j < j' \<and> j' < Suc (length ps) \<longrightarrow> fst ((ps @ [p]) ! j') \<noteq> k" by blast
      have "j = length ps"
      proof (rule ccontr)
        assume "j \<noteq> length ps"
        with j(1) have "j < length ps" by simp
        with j(3) have "fst ((ps @ [p]) ! length ps) \<noteq> k" by blast
        with True show False by simp
      qed
      with j(2) show "p = (k, v)" by simp
    next
      assume "p = (k, v)"
      then show "\<exists>j < Suc (length ps). (ps @ [p]) ! j = (k, v) \<and>
             (\<forall>j'. j < j' \<and> j' < Suc (length ps) \<longrightarrow> fst ((ps @ [p]) ! j') \<noteq> k)"
        by (intro exI [of _ "length ps"]) auto
    qed
    with True show ?thesis by (cases p) auto
  next
    case False
    have "(\<exists>j < Suc (length ps). (ps @ [p]) ! j = (k, v) \<and>
             (\<forall>j'. j < j' \<and> j' < Suc (length ps) \<longrightarrow> fst ((ps @ [p]) ! j') \<noteq> k))
          \<longleftrightarrow> (\<exists>j < length ps. ps ! j = (k, v) \<and>
             (\<forall>j'. j < j' \<and> j' < length ps \<longrightarrow> fst (ps ! j') \<noteq> k))" (is "?L \<longleftrightarrow> ?R")
    proof
      assume ?L
      then obtain j where j: "j < Suc (length ps)" "(ps @ [p]) ! j = (k, v)"
        "\<forall>j'. j < j' \<and> j' < Suc (length ps) \<longrightarrow> fst ((ps @ [p]) ! j') \<noteq> k" by blast
      from j(2) False have "j \<noteq> length ps" by auto
      with j(1) have jl: "j < length ps" by simp
      with j(2) have "ps ! j = (k, v)" by (simp add: nth_append)
      moreover have "\<forall>j'. j < j' \<and> j' < length ps \<longrightarrow> fst (ps ! j') \<noteq> k"
        using j(3) by (metis less_Suc_eq nth_append)
      ultimately show ?R using jl by blast
    next
      assume ?R
      then obtain j where j: "j < length ps" "ps ! j = (k, v)"
        "\<forall>j'. j < j' \<and> j' < length ps \<longrightarrow> fst (ps ! j') \<noteq> k" by blast
      have "\<forall>j'. j < j' \<and> j' < Suc (length ps) \<longrightarrow> fst ((ps @ [p]) ! j') \<noteq> k"
        using j(3) False by (auto simp: nth_append less_Suc_eq)
      with j(1,2) show ?L by (intro exI [of _ j]) (simp add: nth_append)
    qed
    with False snoc show ?thesis by (cases p) auto
  qed
qed

lemma pairs_butlast: "odd (length xs) \<Longrightarrow> pairs (butlast xs) = pairs xs"
  by (induction xs rule: pairs.induct) auto


text \<open>
  Claim C1. For every sequence \<open>fs\<close> of values, \<open>convertFields\<close> returns a map and never
  panics. The map is made of the consecutive pairs of \<open>fs\<close> whose first element is a string:
  it holds \<open>v\<close> under \<open>k\<close> exactly when some pair \<open>(fs ! (2 * j), fs ! (2 * j + 1))\<close> is
  \<open>(StringVal k, v)\<close> and no later pair has the key \<open>k\<close> (the last write wins). An
  unpaired last element of a sequence of odd length changes nothing.
\<close>

theorem convertFields_string_keyed_pairs:
  "\<exists>m. convertFields fs = Inr m \<and>
     m = map_of (rev (string_keyed (pairs fs))) \<and>
     (\<forall>k v. m k = Some v \<longleftrightarrow>
        (\<exists>j. 2 * j + 1 < length fs \<and> fs ! (2 * j) = StringVal k \<and>
             fs ! (2 * j + 1) = v \<and>
             (\<forall>j'. j < j' \<and> 2 * j' + 1 < length fs \<longrightarrow> fs ! (2 * j') \<noteq> StringVal k))) \<and>
     (odd (length fs) \<longrightarrow> convertFields fs = convertFields (butlast fs))"
proof -
  let ?m = "map_of (rev (string_keyed (pairs fs)))"
  have lt: "j < length fs div 2 \<longleftrightarrow> 2 * j + 1 < length fs" for j
    by presburger
  have "?m k = Some v \<longleftrightarrow>
        (\<exists>j. 2 * j + 1 < length fs \<and> fs ! (2 * j) = StringVal k \<and>
             fs ! (2 * j + 1) = v \<and>
             (\<forall>j'. j < j' \<and> 2 * j' + 1 < length fs \<longrightarrow> fs ! (2 * j') \<noteq> StringVal k))"
    (is "?L \<longleftrightarrow> ?R") for k v
  proof
    assume ?L
    then obtain j where j: "j < length (pairs fs)" "pairs fs ! j = (StringVal k, v)"
      "\<forall>j'. j < j' \<and> j' < length (pairs fs) \<longrightarrow> fst (pairs fs ! j') \<noteq> StringVal k"
      unfolding map_of_string_keyed map_of_rev_last by blast
    from j(1) have jl: "2 * j + 1 < length fs" by (simp add: length_pairs lt)
    with j(2) have "fs ! (2 * j) = StringVal k" "fs ! (2 * j + 1) = v"
      by (simp_all add: nth_pairs)
    moreover have "fs ! (2 * j') \<noteq> StringVal k" if "j < j'" "2 * j' + 1 < length fs" for j'
      using j(3) that by (auto simp: length_pairs lt nth_pairs)
    ultimately show ?R using jl by blast
  next
    assume ?R
    then obtain j where j: "2 * j + 1 < length fs" "fs ! (2 * j) = StringVal k"
      "fs ! (2 * j + 1) = v"
      "\<forall>j'. j < j' \<and> 2 * j' + 1 < length fs \<longrightarrow> fs ! (2 * j') \<noteq> StringVal k" by blast
    have "j < length (pairs fs)" using j(1) by (simp add: length_pairs lt)
    moreover have "pairs fs ! j = (StringVal k, v)" using j(1,2,3) by (simp add: nth_pairs)
    moreover have "\<forall>j'. j < j' \<and> j' < length (pairs fs) \<longrightarrow> fst (pairs fs ! j') \<noteq> StringVal k"
      using j(4) by (auto simp: length_pairs lt nth_pairs)
    ultimately show ?L unfolding map_of_string_keyed map_of_rev_last by blast
  qed
  moreover have "odd (length fs) \<longrightarrow> convertFields fs = convertFields (butlast fs)"
    by (simp add: convertFields_pairs pairs_butlast)
  ultimately show ?thesis
    by (intro exI [of _ ?m]) (simp add: convertFields_pairs)
qed

theorem convertFields_string_keyed_pairs_witness:
  "(\<exists>m. convertFields [StringVal ''a'', IntVal 1, IntVal 7, BoolVal True,
                         StringVal ''a'', IntVal 2, StringVal ''b''] = Inr m \<and>
        m ''a'' = Some (IntVal 2) \<and> m ''b'' = None) \<and>
   convertFields [StringVal ''a'', IntVal 1, IntVal 7, BoolVal True,
                  StringVal ''a'', IntVal 2, StringVal ''b'']
     = convertFields [StringVal ''a'', IntVal 1, IntVal 7, BoolVal True, StringVal ''a'', IntVal 2]"
  using convertFields_string_keyed_pairs
    [of "[StringVal ''a'', IntVal 1, IntVal 7, BoolVal True, StringVal ''a'', IntVal 2, StringVal ''b'']"]
  by auto

section \<open>Evaluation and the store\<close>

lemma ToLower_json: "ToLower ''json'' = ''json''"
  by (simp add: ToLower_def toLower_byte_def)

lemma ToLower_console: "ToLower ''console'' = ''console''"
  by (simp add: ToLower_def toLower_byte_def)

lemmas ToLower_eval = ToLower_def toLower_byte_def char_of_eq_iff

lemma parent_state_made:
  "New ToLower level_names every_file_opens Map.empty [] start = Inr (0, parent_state)"
  by (simp add: New_def Getenv_def defaults_def start_def parent_state_def createWriter_def
      ToLower_eval level_names_def With_Timestamp_def zerolog_New_def Level_def)

lemma family_state_made:
  "WithFields 0 [StringVal ''app'', StringVal ''x''] parent_state = Inr (1, family_state)"
  by (simp add: WithFields_def parent_state_def family_state_def deref_def convertFields_pairs
      With_Fields_def)

lemma pair_state_made:
  "\<exists>s. New ToLower level_names every_file_opens Map.empty [WithLevel ''disabled''] start = Inr (0, s) \<and>
       New ToLower level_names every_file_opens Map.empty [] s = Inr (1, pair_state)"
  by (simp add: New_def Getenv_def defaults_def start_def pair_state_def createWriter_def
      ToLower_eval level_names_def With_Timestamp_def zerolog_New_def Level_def)

lemma deref_update:
  "deref (heap[a := v]) b = (if b = a \<and> a < length heap then Some v else deref heap b)"
  by (simp add: deref_def)

lemma deref_append:
  "deref (heap @ [v]) b = (if b = length heap then Some v else deref heap b)"
  by (auto simp: deref_def nth_append)

lemma deref_Some_less: "deref heap a = Some v \<Longrightarrow> a < length heap"
  by (simp add: deref_def split: if_splits)

lemma family_parent: "deref (loggers family_state) 0 = Some (loggers family_state ! 0)"
  by (simp add: deref_def family_state_def parent_state_def)

lemma family_config:
  "deref (configs family_state) (config (loggers family_state ! 0)) = Some defaults"
  by (simp add: deref_def family_state_def parent_state_def)

section \<open>The writer selector has three outcomes\<close>

text \<open>
  Claim C5. For every format string, sink \<open>w\<close>, timestamp format \<open>tf\<close> and environment,
  \<open>createWriter\<close> has exactly three outcomes, decided by the lower-cased format (the format
  names are matched without regard to case): \<open>json\<close> gives the sink itself; \<open>console\<close> gives
  the console writer around the sink with the given timestamp format, its colouring switched
  off exactly when \<open>NO_COLOR\<close> is set to a non-empty value; anything else gives the error
  \<open>ErrInvalidLogFormat\<close>.
\<close>

theorem createWriter_outcomes:
  "(ToLower format = ''json'' \<longrightarrow> createWriter env format w tf = Inr w) \<and>
   (ToLower format = ''console'' \<longrightarrow>
      createWriter env format w tf = Inr (ConsoleWriter w tf (Getenv env ''NO_COLOR'' \<noteq> []))) \<and>
   (ToLower format \<noteq> ''json'' \<and> ToLower format \<noteq> ''console'' \<longrightarrow>
      createWriter env format w tf = Inl ErrInvalidLogFormat) \<and>
   createWriter env ''json'' w tf = Inr w \<and>
   createWriter env ''console'' w tf = Inr (ConsoleWriter w tf (Getenv env ''NO_COLOR'' \<noteq> []))"
  by (simp add: createWriter_def Let_def ToLower_json ToLower_console)

theorem createWriter_outcomes_witness:
  "createWriter [''NO_COLOR'' \<mapsto> ''1''] ''JSON'' (Sink 0) RFC3339 = Inr (Sink 0) \<and>
   createWriter [''NO_COLOR'' \<mapsto> ''1''] ''Console'' (Sink 0) RFC3339
     = Inr (ConsoleWriter (Sink 0) RFC3339 True) \<and>
   createWriter Map.empty ''console'' (Sink 0) RFC3339
     = Inr (ConsoleWriter (Sink 0) RFC3339 False) \<and>
   createWriter Map.empty ''yaml'' (Sink 0) RFC3339 = Inl ErrInvalidLogFormat"
  using createWriter_outcomes [of "''JSON''" "[''NO_COLOR'' \<mapsto> ''1'']" "Sink 0" RFC3339]
    createWriter_outcomes [of "''Console''" "[''NO_COLOR'' \<mapsto> ''1'']" "Sink 0" RFC3339]
    createWriter_outcomes [of "''console''" Map.empty "Sink 0" RFC3339]
    createWriter_outcomes [of "''yaml''" Map.empty "Sink 0" RFC3339]
  by (simp add: ToLower_eval Getenv_def)

section \<open>Changing the level\<close>

text \<open>
  Claim C2. For every level string, whatever \<open>strings.ToLower\<close> and the engine's parser
  are: \<open>SetLevel\<close> returns \<open>ErrInvalidLogLevel\<close> exactly when the parser rejects the
  lower-cased string, and then the whole state, the level of the receiver with it, is
  unchanged. When the parser accepts it with the level \<open>l\<close> and \<open>z\<close> is a facade of the
  store, \<open>SetLevel\<close> returns no error and only the level of the engine handle of \<open>z\<close>
  changes, to \<open>l\<close>: every other facade, every configuration, the engine's globals and
  the output are as before.
\<close>

theorem SetLevel_spec:
  "((\<exists>s'. SetLevel toLower parseLevel z lvl s = Inr (Some ErrInvalidLogLevel, s'))
      \<longleftrightarrow> parseLevel (toLower lvl) = None) \<and>
   (parseLevel (toLower lvl) = None \<longrightarrow>
      SetLevel toLower parseLevel z lvl s = Inr (Some ErrInvalidLogLevel, s)) \<and>
   (\<forall>l zl. parseLevel (toLower lvl) = Some l \<and> deref (loggers s) z = Some zl \<longrightarrow>
      (\<exists>s'. SetLevel toLower parseLevel z lvl s = Inr (None, s') \<and>
            deref (loggers s') z = Some (zl\<lparr>logger := (logger zl)\<lparr>zl_level := l\<rparr>\<rparr>) \<and>
            (\<forall>z'. z' \<noteq> z \<longrightarrow> deref (loggers s') z' = deref (loggers s) z') \<and>
            configs s' = configs s \<and> TimeFieldFormat s' = TimeFieldFormat s \<and>
            GlobalLevel s' = GlobalLevel s \<and> written s' = written s))"
proof (cases "parseLevel (toLower lvl)")
  case None
  then show ?thesis by (simp add: SetLevel_def)
next
  case (Some l)
  show ?thesis
  proof (cases "deref (loggers s) z")
    case None
    with Some show ?thesis by (simp add: SetLevel_def)
  next
    case (Some zl)
    then have "z < length (loggers s)" by (rule deref_Some_less)
    with Some \<open>parseLevel (toLower lvl) = Some l\<close> show ?thesis
      by (simp add: SetLevel_def Level_def deref_update)
  qed
qed

theorem SetLevel_spec_witness:
  "deref (loggers family_state) 0 = Some (loggers family_state ! 0) \<and>
   level_names (ToLower ''bogus'') = None \<and>
   SetLevel ToLower level_names 0 ''bogus'' family_state
     = Inr (Some ErrInvalidLogLevel, family_state) \<and>
   SetLevel ToLower level_names 7 ''bogus'' family_state
     = Inr (Some ErrInvalidLogLevel, family_state) \<and>
   level_names (ToLower ''WARN'') = Some WarnLevel \<and>
   (\<exists>s'. SetLevel ToLower level_names 0 ''WARN'' family_state = Inr (None, s') \<and>
         map_option (zl_level \<circ> logger) (deref (loggers s') 0) = Some WarnLevel \<and>
         deref (loggers s') 1 = deref (loggers family_state) 1 \<and>
         map_option (zl_level \<circ> logger) (deref (loggers s') 1) = Some InfoLevel)"
proof -
  have b: "level_names (ToLower ''bogus'') = None"
    by (simp add: level_names_def ToLower_eval)
  have w: "level_names (ToLower ''WARN'') = Some WarnLevel"
    by (simp add: level_names_def ToLower_eval)
  have c: "map_option (zl_level \<circ> logger) (deref (loggers family_state) 1) = Some InfoLevel"
    by (simp add: deref_def family_state_def parent_state_def)
  from SetLevel_spec [where toLower = ToLower and parseLevel = level_names and z = 0
      and lvl = "''bogus''" and s = family_state]
    SetLevel_spec [where toLower = ToLower and parseLevel = level_names and z = 7
      and lvl = "''bogus''" and s = family_state]
    SetLevel_spec [where toLower = ToLower and parseLevel = level_names and z = 0
      and lvl = "''WARN''" and s = family_state]
    b w c family_parent
  show ?thesis by auto
qed

section \<open>Changing the format\<close>

text \<open>
  Claim C3. On a facade \<open>z\<close> of the store with its configuration \<open>c\<close>: for a format the
  writer selector does not recognise, \<open>SetLogFormat\<close> returns \<open>ErrInvalidLogFormat\<close> and the
  state is unchanged, so the recorded format and the engine handle are the prior ones. For a
  recognised format it returns no error, the engine handle of \<open>z\<close> is rebuilt on the writer
  that \<open>createWriter\<close> makes from the sink and the timestamp format stored in \<open>c\<close> (level,
  fields and hooks kept), and the recorded format is the new one.
\<close>

theorem SetLogFormat_spec:
  assumes "deref (loggers s) z = Some zl" and "deref (configs s) (config zl) = Some c"
  shows "(ToLower format \<noteq> ''json'' \<and> ToLower format \<noteq> ''console'' \<longrightarrow>
            SetLogFormat env z format s = Inr (Some ErrInvalidLogFormat, s) \<and>
            observed_logFormat z s = Some (logFormat c)) \<and>
         (ToLower format = ''json'' \<or> ToLower format = ''console'' \<longrightarrow>
            (\<exists>s' w. SetLogFormat env z format s = Inr (None, s') \<and>
                  createWriter env format (out c) (timeFormat c) = Inr w \<and>
                  deref (loggers s') z = Some (zl\<lparr>logger := Output (logger zl) w\<rparr>) \<and>
                  zl_w (Output (logger zl) w) = w \<and>
                  zl_level (Output (logger zl) w) = zl_level (logger zl) \<and>
                  zl_context (Output (logger zl) w) = zl_context (logger zl) \<and>
                  zl_hooks (Output (logger zl) w) = zl_hooks (logger zl) \<and>
                  deref (configs s') (config zl) = Some (c\<lparr>logFormat := format\<rparr>) \<and>
                  observed_logFormat z s' = Some format))"
proof -
  from assms have zlt: "z < length (loggers s)" and clt: "config zl < length (configs s)"
    by (auto dest: deref_Some_less)
  show ?thesis
  proof (cases "ToLower format = ''json'' \<or> ToLower format = ''console''")
    case False
    with assms show ?thesis
      by (simp add: SetLogFormat_def createWriter_def Let_def observed_logFormat_def)
  next
    case True
    then obtain w where w: "createWriter env format (out c) (timeFormat c) = Inr w"
      by (auto simp: createWriter_def Let_def)
    with assms zlt clt True show ?thesis
      by (simp add: SetLogFormat_def observed_logFormat_def deref_update Output_def zerolog_New_def)
  qed
qed

theorem SetLogFormat_spec_witness:
  "deref (loggers family_state) 0 = Some (loggers family_state ! 0) \<and>
   deref (configs family_state) (config (loggers family_state ! 0)) = Some defaults \<and>
   SetLogFormat Map.empty 0 ''yaml'' family_state = Inr (Some ErrInvalidLogFormat, family_state) \<and>
   observed_logFormat 0 family_state = Some ''json'' \<and>
   (\<exists>s'. SetLogFormat Map.empty 0 ''console'' family_state = Inr (None, s') \<and>
         map_option (zl_w \<circ> logger) (deref (loggers s') 0)
           = Some (ConsoleWriter Stdout RFC3339 False) \<and>
         observed_logFormat 0 s' = Some ''console'')"
proof -
  have y: "ToLower ''yaml'' \<noteq> ''json'' \<and> ToLower ''yaml'' \<noteq> ''console''"
    by (simp add: ToLower_eval)
  have cw: "createWriter Map.empty ''console'' (out defaults) (timeFormat defaults)
      = Inr (ConsoleWriter Stdout RFC3339 False)"
    by (simp add: createWriter_def ToLower_console Getenv_def defaults_def)
  from SetLogFormat_spec [OF family_parent family_config, of "''yaml''" Map.empty] y
    SetLogFormat_spec [OF family_parent family_config, of "''console''" Map.empty] cw
    family_parent family_config
  show ?thesis by (auto simp: ToLower_console defaults_def)
qed

section \<open>Construction layers defaults, environment and options\<close>

lemma explicit_snoc:
  "explicit sel (opts @ [opt]) = (case sel opt of Some v \<Rightarrow> Some v | None \<Rightarrow> explicit sel opts)"
  by (induction opts) (auto split: option.splits)

lemma foldl_options_level:
  "level (foldl (\<lambda>c opt. apply_option opt c) c0 opts)
     = (case explicit option_level opts of Some l \<Rightarrow> l | None \<Rightarrow> level c0)"
proof (induction opts rule: rev_induct)
  case Nil
  then show ?case by simp
next
  case (snoc opt opts)
  then show ?case by (cases opt) (simp_all add: explicit_snoc)
qed

lemma foldl_options_logFormat:
  "logFormat (foldl (\<lambda>c opt. apply_option opt c) c0 opts)
     = (case explicit option_logFormat opts of Some l \<Rightarrow> l | None \<Rightarrow> logFormat c0)"
proof (induction opts rule: rev_induct)
  case Nil
  then show ?case by simp
next
  case (snoc opt opts)
  then show ?case by (cases opt) (simp_all add: explicit_snoc)
qed

lemma foldl_options_timeFormat:
  "timeFormat (foldl (\<lambda>c opt. apply_option opt c) c0 opts)
     = (case explicit option_timeFormat opts of Some l \<Rightarrow> l | None \<Rightarrow> timeFormat c0)"
proof (induction opts rule: rev_induct)
  case Nil
  then show ?case by simp
next
  case (snoc opt opts)
  then show ?case by (cases opt) (simp_all add: explicit_snoc)
qed

lemma foldl_options_out:
  "out (foldl (\<lambda>c opt. apply_option opt c) c0 opts)
     = (case explicit option_out opts of Some l \<Rightarrow> l | None \<Rightarrow> out c0)"
proof (induction opts rule: rev_induct)
  case Nil
  then show ?case by simp
next
  case (snoc opt opts)
  then show ?case by (cases opt) (simp_all add: explicit_snoc)
qed

text \<open>
  Claim C6. Whenever \<open>New\<close> returns a facade, each field of its configuration is the value
  of the highest layer that gives one: the value of the last option that sets the field;
  without such an option, the environment's (\<open>LOG_LEVEL\<close>, \<open>LOG_FORMAT\<close>, and for the
  sink the file that \<open>LOG_FILE\<close> names, opened); without either, the default (\<open>info\<close>,
  \<open>json\<close>, RFC 3339, standard output). The timestamp format has no environment variable.
\<close>

theorem New_layering:
  assumes "New toLower parseLevel openFile env opts s = Inr (z, s')"
  shows "\<exists>zl c. deref (loggers s') z = Some zl \<and> deref (configs s') (config zl) = Some c \<and>
     level c = (case explicit option_level opts of
                  Some l \<Rightarrow> l
                | None \<Rightarrow> if Getenv env ''LOG_LEVEL'' \<noteq> [] then Getenv env ''LOG_LEVEL'' else ''info'') \<and>
     logFormat c = (case explicit option_logFormat opts of
                  Some f \<Rightarrow> f
                | None \<Rightarrow> if Getenv env ''LOG_FORMAT'' \<noteq> [] then Getenv env ''LOG_FORMAT'' else ''json'') \<and>
     timeFormat c = (case explicit option_timeFormat opts of Some f \<Rightarrow> f | None \<Rightarrow> RFC3339) \<and>
     (\<forall>w. explicit option_out opts = Some w \<longrightarrow> out c = w) \<and>
     (explicit option_out opts = None \<and> Getenv env ''LOG_FILE'' \<noteq> [] \<longrightarrow>
        openFile (Getenv env ''LOG_FILE'') = Inr (out c)) \<and>
     (explicit option_out opts = None \<and> Getenv env ''LOG_FILE'' = [] \<longrightarrow> out c = Stdout)"
proof -
  define c0 where "c0 =
    \<lparr>level = (if Getenv env ''LOG_LEVEL'' \<noteq> [] then Getenv env ''LOG_LEVEL'' else ''info''),
     logFormat = (if Getenv env ''LOG_FORMAT'' \<noteq> [] then Getenv env ''LOG_FORMAT'' else ''json''),
     timeFormat = RFC3339,
     out = (if Getenv env ''LOG_FILE'' \<noteq> []
            then (case openFile (Getenv env ''LOG_FILE'') of Inr f \<Rightarrow> f | Inl e \<Rightarrow> Stdout)
            else Stdout)\<rparr>"
  define c where "c = foldl (\<lambda>c opt. apply_option opt c) c0 opts"
  have opened: "Getenv env ''LOG_FILE'' \<noteq> [] \<Longrightarrow> openFile (Getenv env ''LOG_FILE'') = Inr (out c0)"
    using assms by (auto simp: New_def Let_def c0_def split: sum.splits if_splits)
  have made: "z = length (loggers s) \<and>
      deref (loggers s') z \<noteq> None \<and>
      map_option config (deref (loggers s') z) = Some (length (configs s)) \<and>
      deref (configs s') (length (configs s)) = Some c"
    using assms
    by (auto simp: New_def Let_def c_def c0_def defaults_def deref_append
        split: sum.splits if_splits option.splits)
  then obtain zl where zl: "deref (loggers s') z = Some zl" "config zl = length (configs s)"
    by auto
  have "level c = (case explicit option_level opts of Some l \<Rightarrow> l | None \<Rightarrow> level c0)"
    "logFormat c = (case explicit option_logFormat opts of Some l \<Rightarrow> l | None \<Rightarrow> logFormat c0)"
    "timeFormat c = (case explicit option_timeFormat opts of Some l \<Rightarrow> l | None \<Rightarrow> timeFormat c0)"
    "out c = (case explicit option_out opts of Some l \<Rightarrow> l | None \<Rightarrow> out c0)"
    by (simp_all add: c_def foldl_options_level foldl_options_logFormat
        foldl_options_timeFormat foldl_options_out)
  with opened have "level c = (case explicit option_level opts of
                  Some l \<Rightarrow> l
                | None \<Rightarrow> if Getenv env ''LOG_LEVEL'' \<noteq> [] then Getenv env ''LOG_LEVEL'' else ''info'')"
    "logFormat c = (case explicit option_logFormat opts of
                  Some f \<Rightarrow> f
                | None \<Rightarrow> if Getenv env ''LOG_FORMAT'' \<noteq> [] then Getenv env ''LOG_FORMAT'' else ''json'')"
    "timeFormat c = (case explicit option_timeFormat opts of Some f \<Rightarrow> f | None \<Rightarrow> RFC3339)"
    "\<forall>w. explicit option_out opts = Some w \<longrightarrow> out c = w"
    "explicit option_out opts = None \<and> Getenv env ''LOG_FILE'' \<noteq> [] \<longrightarrow>
        openFile (Getenv env ''LOG_FILE'') = Inr (out c)"
    "explicit option_out opts = None \<and> Getenv env ''LOG_FILE'' = [] \<longrightarrow> out c = Stdout"
    by (auto simp: c0_def split: option.splits)
  with zl made show ?thesis by (intro exI [of _ zl] exI [of _ c]) simp
qed

theorem New_layering_witness:
  "\<exists>s' zl c.
     New ToLower level_names every_file_opens
       [''LOG_LEVEL'' \<mapsto> ''error'', ''LOG_FORMAT'' \<mapsto> ''console'', ''LOG_FILE'' \<mapsto> ''app.log'']
       [WithLevel ''debug'', WithLevel ''warn''] start = Inr (0, s') \<and>
     deref (loggers s') 0 = Some zl \<and> deref (configs s') (config zl) = Some c \<and>
     level c = ''warn'' \<and> logFormat c = ''console'' \<and> timeFormat c = RFC3339 \<and>
     out c = File ''app.log''"
proof -
  let ?env = "[''LOG_LEVEL'' \<mapsto> ''error'', ''LOG_FORMAT'' \<mapsto> ''console'',
               ''LOG_FILE'' \<mapsto> ''app.log'']"
  let ?opts = "[WithLevel ''debug'', WithLevel ''warn'']"
  obtain s' where n: "New ToLower level_names every_file_opens ?env ?opts start = Inr (0, s')"
    by (simp add: New_def Let_def Getenv_def defaults_def start_def createWriter_def
        ToLower_eval level_names_def every_file_opens_def)
  from New_layering [OF n] n show ?thesis
    by (auto simp: Getenv_def every_file_opens_def)
qed

section \<open>The format round trip\<close>

lemma createWriter_json: "createWriter env ''json'' w tf = Inr w"
  by (simp add: createWriter_def ToLower_json)

lemma createWriter_console:
  "createWriter env ''console'' w tf = Inr (ConsoleWriter w tf (Getenv env ''NO_COLOR'' \<noteq> []))"
  by (simp add: createWriter_def ToLower_console Let_def)

lemma Output_Output: "Output (Output l w) w' = Output l w'"
  by (simp add: Output_def zerolog_New_def)

lemma SetLogFormat_ok:
  assumes "deref (loggers s) z = Some zl" and "deref (configs s) (config zl) = Some c"
    and "createWriter env format (out c) (timeFormat c) = Inr w"
  shows "SetLogFormat env z format s = Inr (None,
           s\<lparr>loggers := (loggers s)[z := zl\<lparr>logger := Output (logger zl) w\<rparr>],
             configs := (configs s)[config zl := c\<lparr>logFormat := format\<rparr>]\<rparr>)"
  using assms by (simp add: SetLogFormat_def)

lemma New_appended_json:
  assumes "New toLower parseLevel openFile env opts s = Inr (z, s0)"
  shows "\<exists>zl c. deref (loggers s0) z = Some zl \<and> deref (configs s0) (config zl) = Some c \<and>
     New toLower parseLevel openFile env (opts @ [WithLogFormat ''json'']) s
       = Inr (z, s0\<lparr>loggers := (loggers s0)[z := zl\<lparr>logger := Output (logger zl) (out c)\<rparr>],
                    configs := (configs s0)[config zl := c\<lparr>logFormat := ''json''\<rparr>]\<rparr>)"
  using assms
  by (auto simp: New_def Let_def deref_append createWriter_json Output_def zerolog_New_def
      With_Timestamp_def Level_def split: sum.splits if_splits option.splits)

text \<open>
  Claim C9. On any facade \<open>z\<close> of the store, setting the format to \<open>json\<close>, then to
  \<open>console\<close>, then to \<open>json\<close> again always succeeds, in whatever environments \<open>e1\<close>,
  \<open>e2\<close>, \<open>e3\<close> the three calls run, and ends in the very state the first call alone gave:
  the engine handle writes straight to the configured sink, with its level, fields and hooks
  as before, and the recorded format is \<open>json\<close>. If \<open>z\<close> was made by \<open>New\<close>, that state is
  the one \<open>New\<close> makes from the same start, environment and options followed by
  \<open>WithLogFormat("json")\<close>: the facade constructed directly with \<open>json\<close>. Equal states give
  equal output.
\<close>

theorem format_round_trip:
  assumes "deref (loggers s) z = Some zl" and "deref (configs s) (config zl) = Some c"
  shows "\<exists>s1 s2 s3.
     SetLogFormat e1 z ''json'' s = Inr (None, s1) \<and>
     SetLogFormat e2 z ''console'' s1 = Inr (None, s2) \<and>
     SetLogFormat e3 z ''json'' s2 = Inr (None, s3) \<and>
     s3 = s1 \<and>
     deref (loggers s3) z = Some (zl\<lparr>logger := Output (logger zl) (out c)\<rparr>) \<and>
     zl_w (Output (logger zl) (out c)) = out c \<and>
     deref (configs s3) (config zl) = Some (c\<lparr>logFormat := ''json''\<rparr>) \<and>
     (\<forall>toLower parseLevel openFile env opts s'.
        New toLower parseLevel openFile env opts s' = Inr (z, s) \<longrightarrow>
        New toLower parseLevel openFile env (opts @ [WithLogFormat ''json'']) s' = Inr (z, s3))"
proof -
  from assms have zlt: "z < length (loggers s)" and clt: "config zl < length (configs s)"
    by (auto dest: deref_Some_less)
  define s1 where "s1 = s\<lparr>loggers := (loggers s)[z := zl\<lparr>logger := Output (logger zl) (out c)\<rparr>],
             configs := (configs s)[config zl := c\<lparr>logFormat := ''json''\<rparr>]\<rparr>"
  define s2 where "s2 = s\<lparr>loggers := (loggers s)[z := zl\<lparr>logger := Output (logger zl)
               (ConsoleWriter (out c) (timeFormat c) (Getenv e2 ''NO_COLOR'' \<noteq> []))\<rparr>],
             configs := (configs s)[config zl := c\<lparr>logFormat := ''console''\<rparr>]\<rparr>"
  have 1: "SetLogFormat e1 z ''json'' s = Inr (None, s1)"
    unfolding s1_def by (rule SetLogFormat_ok [OF assms createWriter_json])
  have z1: "deref (loggers s1) z = Some (zl\<lparr>logger := Output (logger zl) (out c)\<rparr>)"
    and c1: "deref (configs s1) (config (zl\<lparr>logger := Output (logger zl) (out c)\<rparr>))
               = Some (c\<lparr>logFormat := ''json''\<rparr>)"
    using zlt clt by (simp_all add: s1_def deref_update)
  have 2: "SetLogFormat e2 z ''console'' s1 = Inr (None, s2)"
    using SetLogFormat_ok [OF z1 c1, of e2 "''console''"]
    by (simp add: createWriter_console s1_def s2_def Output_Output)
  have z2: "deref (loggers s2) z = Some (zl\<lparr>logger := Output (logger zl)
               (ConsoleWriter (out c) (timeFormat c) (Getenv e2 ''NO_COLOR'' \<noteq> []))\<rparr>)"
    and c2: "deref (configs s2) (config (zl\<lparr>logger := Output (logger zl)
               (ConsoleWriter (out c) (timeFormat c) (Getenv e2 ''NO_COLOR'' \<noteq> []))\<rparr>))
               = Some (c\<lparr>logFormat := ''console''\<rparr>)"
    using zlt clt by (simp_all add: s2_def deref_update)
  have 3: "SetLogFormat e3 z ''json'' s2 = Inr (None, s1)"
    using SetLogFormat_ok [OF z2 c2, of e3 "''json''"]
    by (simp add: createWriter_json s1_def s2_def Output_Output)
  have w: "zl_w (Output (logger zl) (out c)) = out c"
    by (simp add: Output_def zerolog_New_def)
  have n: "New toLower parseLevel openFile env opts s' = Inr (z, s) \<longrightarrow>
        New toLower parseLevel openFile env (opts @ [WithLogFormat ''json'']) s' = Inr (z, s1)"
    for toLower parseLevel openFile env opts s'
    using New_appended_json [of toLower parseLevel openFile env opts s' z s] assms
    by (auto simp: s1_def)
  from 1 2 3 z1 c1 w n show ?thesis by auto
qed

theorem format_round_trip_witness:
  "\<exists>s s1 s2 s3.
     New ToLower level_names every_file_opens Map.empty [WithLogFormat ''console''] start = Inr (0, s) \<and>
     SetLogFormat Map.empty 0 ''json'' s = Inr (None, s1) \<and>
     SetLogFormat [''NO_COLOR'' \<mapsto> ''1''] 0 ''console'' s1 = Inr (None, s2) \<and>
     SetLogFormat Map.empty 0 ''json'' s2 = Inr (None, s3) \<and>
     s3 = s1 \<and>
     New ToLower level_names every_file_opens Map.empty [WithLogFormat ''console'', WithLogFormat ''json'']
       start = Inr (0, s3)"
proof -
  obtain s where
    n: "New ToLower level_names every_file_opens Map.empty [WithLogFormat ''console''] start = Inr (0, s)"
    by (simp add: New_def Let_def Getenv_def defaults_def start_def createWriter_def
        ToLower_eval level_names_def)
  from New_appended_json [OF n] obtain zl c where
    d: "deref (loggers s) 0 = Some zl" "deref (configs s) (config zl) = Some c"
    by blast
  from format_round_trip [OF d, of Map.empty "[''NO_COLOR'' \<mapsto> ''1'']" Map.empty]
  obtain s1 s2 s3 where
    t: "SetLogFormat Map.empty 0 ''json'' s = Inr (None, s1)"
       "SetLogFormat [''NO_COLOR'' \<mapsto> ''1''] 0 ''console'' s1 = Inr (None, s2)"
       "SetLogFormat Map.empty 0 ''json'' s2 = Inr (None, s3)"
       "s3 = s1"
    and a: "\<forall>toLower parseLevel openFile env opts s'.
        New toLower parseLevel openFile env opts s' = Inr (0, s) \<longrightarrow>
        New toLower parseLevel openFile env (opts @ [WithLogFormat ''json'']) s' = Inr (0, s3)"
    by blast
  from a n have "New ToLower level_names every_file_opens Map.empty
      ([WithLogFormat ''console''] @ [WithLogFormat ''json'']) start = Inr (0, s3)"
    by blast
  with n t show ?thesis by auto
qed

section \<open>What a change of format does to other facades\<close>

text \<open>
  Claim C4, as stated, fails: a child made by \<open>WithFields\<close> holds its parent's \<open>config\<close>
  pointer, and the parent's \<open>SetLogFormat("console")\<close> writes the format into that shared
  \<open>config\<close>; the child saw \<open>json\<close> there before and sees \<open>console\<close> after.
\<close>

theorem SetLogFormat_shared_config_counterexample:
  "New ToLower level_names every_file_opens Map.empty [] start = Inr (0, parent_state) \<and>
   WithFields 0 [StringVal ''app'', StringVal ''x''] parent_state = Inr (1, family_state) \<and>
   observed_logFormat 1 family_state = Some ''json'' \<and>
   (\<exists>s'. SetLogFormat Map.empty 0 ''console'' family_state = Inr (None, s') \<and>
         observed_logFormat 1 s' = Some ''console'')"
  by (simp add: parent_state_made family_state_made)
     (simp add: SetLogFormat_def createWriter_console observed_logFormat_def deref_def
        family_state_def parent_state_def defaults_def)

text \<open>
  Claim C4, amended. A successful \<open>SetLogFormat\<close> on the facade \<open>z\<close> leaves every other
  facade (its engine handle, so its output pipeline, level and fields, and its \<open>config\<close>
  pointer) and every other configuration as they were, and of the receiver's own
  configuration it changes the format only. That configuration is shared: every facade that
  points to it sees the new format there; a facade on another configuration sees no change.
\<close>

theorem SetLogFormat_frame:
  assumes "deref (loggers s) z = Some zl" and "deref (configs s) (config zl) = Some c"
    and "SetLogFormat env z format s = Inr (None, s')"
  shows "(\<forall>z'. z' \<noteq> z \<longrightarrow> deref (loggers s') z' = deref (loggers s) z') \<and>
         (\<forall>a. a \<noteq> config zl \<longrightarrow> deref (configs s') a = deref (configs s) a) \<and>
         deref (configs s') (config zl) = Some (c\<lparr>logFormat := format\<rparr>) \<and>
         (\<forall>z' zl'. deref (loggers s) z' = Some zl' \<and> config zl' = config zl \<longrightarrow>
            observed_logFormat z' s' = Some format) \<and>
         (\<forall>z' zl'. deref (loggers s) z' = Some zl' \<and> config zl' \<noteq> config zl \<longrightarrow>
            observed_logFormat z' s' = observed_logFormat z' s) \<and>
         TimeFieldFormat s' = TimeFieldFormat s \<and> GlobalLevel s' = GlobalLevel s \<and>
         written s' = written s"
proof -
  from assms have zlt: "z < length (loggers s)" and clt: "config zl < length (configs s)"
    by (auto dest: deref_Some_less)
  from assms obtain w where
    s': "s' = s\<lparr>loggers := (loggers s)[z := zl\<lparr>logger := Output (logger zl) w\<rparr>],
                 configs := (configs s)[config zl := c\<lparr>logFormat := format\<rparr>]\<rparr>"
    by (auto simp: SetLogFormat_def split: sum.splits)
  have "observed_logFormat z' s' = Some format"
    if "deref (loggers s) z' = Some zl'" "config zl' = config zl" for z' zl'
    using that clt by (simp add: s' observed_logFormat_def deref_update)
  moreover have "observed_logFormat z' s' = observed_logFormat z' s"
    if "deref (loggers s) z' = Some zl'" "config zl' \<noteq> config zl" for z' zl'
    using that assms(1) by (auto simp: s' observed_logFormat_def deref_update)
  ultimately show ?thesis
    using clt by (auto simp: s' deref_update)
qed

theorem SetLogFormat_frame_witness:
  "deref (loggers family_state) 0 = Some (loggers family_state ! 0) \<and>
   deref (configs family_state) (config (loggers family_state ! 0)) = Some defaults \<and>
   (\<exists>s'. SetLogFormat Map.empty 0 ''console'' family_state = Inr (None, s') \<and>
         deref (loggers s') 1 = deref (loggers family_state) 1 \<and>
         deref (configs s') 0 = Some (defaults\<lparr>logFormat := ''console''\<rparr>) \<and>
         observed_logFormat 1 s' = Some ''console'')"
proof -
  obtain s' where t: "SetLogFormat Map.empty 0 ''console'' family_state = Inr (None, s')"
    by (simp add: SetLogFormat_def createWriter_console family_parent family_config)
  have c: "deref (loggers family_state) 1 = Some (loggers family_state ! 1)"
    "config (loggers family_state ! 1) = config (loggers family_state ! 0)"
    "config (loggers family_state ! 0) = 0"
    by (simp_all add: deref_def family_state_def parent_state_def)
  from SetLogFormat_frame [OF family_parent family_config t] c t family_parent family_config
  show ?thesis by auto
qed

section \<open>What reads the environment\<close>

text \<open>
  Claim C8, as stated, fails: \<open>SetLogFormat\<close> calls \<open>createWriter\<close>, which reads \<open>NO_COLOR\<close>
  at that moment. On the facade constructed with \<open>NO_COLOR\<close> unset, \<open>SetLogFormat("console")\<close>
  gives a colouring writer in an environment without \<open>NO_COLOR\<close> and a writer without
  colours in one that sets it.
\<close>

theorem SetLogFormat_reads_NO_COLOR_counterexample:
  "New ToLower level_names every_file_opens Map.empty [] start = Inr (0, parent_state) \<and>
   (\<exists>sa sb. SetLogFormat Map.empty 0 ''console'' parent_state = Inr (None, sa) \<and>
       SetLogFormat [''NO_COLOR'' \<mapsto> ''1''] 0 ''console'' parent_state = Inr (None, sb) \<and>
       map_option (zl_w \<circ> logger) (deref (loggers sa) 0)
         = Some (ConsoleWriter Stdout RFC3339 False) \<and>
       map_option (zl_w \<circ> logger) (deref (loggers sb) 0)
         = Some (ConsoleWriter Stdout RFC3339 True)) \<and>
   SetLogFormat Map.empty 0 ''console'' parent_state
     \<noteq> SetLogFormat [''NO_COLOR'' \<mapsto> ''1''] 0 ''console'' parent_state"
  by (simp add: parent_state_made)
     (simp add: SetLogFormat_def createWriter_console Getenv_def deref_def parent_state_def
        defaults_def Output_def zerolog_New_def)

text \<open>
  Claim C8, amended. Of the operations on a constructed facade only \<open>SetLogFormat\<close> reads the
  environment (the others have no access to it: they take no environment), and of the
  environment it reads \<open>NO_COLOR\<close> only, and only for the console format: in two
  environments that agree on whether \<open>NO_COLOR\<close> is empty, or for a format that is not
  \<open>console\<close>, it behaves identically. \<open>New\<close> depends on the environment through
  \<open>LOG_LEVEL\<close>, \<open>LOG_FORMAT\<close>, \<open>LOG_FILE\<close> and the emptiness of \<open>NO_COLOR\<close> alone.
\<close>

theorem environment_reads:
  "((ToLower format = ''console'' \<longrightarrow>
       (Getenv e1 ''NO_COLOR'' = []) = (Getenv e2 ''NO_COLOR'' = [])) \<longrightarrow>
      SetLogFormat e1 z format s = SetLogFormat e2 z format s) \<and>
   (Getenv e1 ''LOG_LEVEL'' = Getenv e2 ''LOG_LEVEL'' \<and>
    Getenv e1 ''LOG_FORMAT'' = Getenv e2 ''LOG_FORMAT'' \<and>
    Getenv e1 ''LOG_FILE'' = Getenv e2 ''LOG_FILE'' \<and>
    (Getenv e1 ''NO_COLOR'' = []) = (Getenv e2 ''NO_COLOR'' = []) \<longrightarrow>
      New toLower parseLevel openFile e1 opts s = New toLower parseLevel openFile e2 opts s)"
proof -
  have cw: "createWriter e1 f w tf = createWriter e2 f w tf"
    if "ToLower f = ''console'' \<longrightarrow> (Getenv e1 ''NO_COLOR'' = []) = (Getenv e2 ''NO_COLOR'' = [])"
    for f w tf
    using that by (auto simp: createWriter_def Let_def)
  have "SetLogFormat e1 z format s = SetLogFormat e2 z format s"
    if "ToLower format = ''console'' \<longrightarrow>
       (Getenv e1 ''NO_COLOR'' = []) = (Getenv e2 ''NO_COLOR'' = [])"
    by (simp add: SetLogFormat_def cw [OF that] split: option.splits)
  moreover have "New toLower parseLevel openFile e1 opts s = New toLower parseLevel openFile e2 opts s"
    if "Getenv e1 ''LOG_LEVEL'' = Getenv e2 ''LOG_LEVEL''"
      "Getenv e1 ''LOG_FORMAT'' = Getenv e2 ''LOG_FORMAT''"
      "Getenv e1 ''LOG_FILE'' = Getenv e2 ''LOG_FILE''"
      "(Getenv e1 ''NO_COLOR'' = []) = (Getenv e2 ''NO_COLOR'' = [])"
  proof -
    have cw': "createWriter e1 f w tf = createWriter e2 f w tf" for f w tf
      using that(4) by (intro cw) simp
    show ?thesis
      by (simp add: New_def Let_def that(1-3) cw' split: sum.splits if_splits)
  qed
  ultimately show ?thesis by blast
qed

theorem environment_reads_witness:
  "SetLogFormat [''NO_COLOR'' \<mapsto> ''1'', ''LOG_LEVEL'' \<mapsto> ''debug''] 0 ''console'' parent_state
     = SetLogFormat [''NO_COLOR'' \<mapsto> ''true'', ''LOG_FORMAT'' \<mapsto> ''yaml''] 0 ''console'' parent_state \<and>
   SetLogFormat [''NO_COLOR'' \<mapsto> ''1''] 0 ''json'' parent_state
     = SetLogFormat Map.empty 0 ''json'' parent_state \<and>
   New ToLower level_names every_file_opens [''LOG_LEVEL'' \<mapsto> ''warn'', ''HOME'' \<mapsto> ''a''] [] start
     = New ToLower level_names every_file_opens [''LOG_LEVEL'' \<mapsto> ''warn'', ''HOME'' \<mapsto> ''b''] [] start"
  using environment_reads [where format = "''console''"
      and ?e1.0 = "[''NO_COLOR'' \<mapsto> ''1'', ''LOG_LEVEL'' \<mapsto> ''debug'']"
      and ?e2.0 = "[''NO_COLOR'' \<mapsto> ''true'', ''LOG_FORMAT'' \<mapsto> ''yaml'']"
      and z = 0 and s = parent_state]
    environment_reads [where format = "''json''" and ?e1.0 = "[''NO_COLOR'' \<mapsto> ''1'']"
      and ?e2.0 = Map.empty and z = 0 and s = parent_state]
    environment_reads [where ?e1.0 = "[''LOG_LEVEL'' \<mapsto> ''warn'', ''HOME'' \<mapsto> ''a'']"
      and ?e2.0 = "[''LOG_LEVEL'' \<mapsto> ''warn'', ''HOME'' \<mapsto> ''b'']"
      and toLower = ToLower and parseLevel = level_names and openFile = every_file_opens
      and opts = "[]"
      and s = start]
  by (simp add: Getenv_def ToLower_json)

section \<open>Loggers carried by a context\<close>

lemma disabledLogger_level: "GetLevel disabledLogger = Disabled"
  by (simp add: GetLevel_def disabledLogger_def Level_def zerolog_New_def)

lemma FromContext_unbound:
  assumes "deref (loggers s) z = Some zl" and "ctx_Value ctx = None"
  shows "FromContext z ctx s = Inr (length (loggers s),
           s\<lparr>loggers := loggers s @ [\<lparr>logger = logger zl, config = config zl\<rparr>]\<rparr>)"
  using assms by (simp add: FromContext_def Ctx_def disabledLogger_level)

lemma FromContext_bound:
  assumes "deref (loggers s) z = Some zl" and "ctx_Value ctx = Some l"
  shows "FromContext z ctx s = Inr (length (loggers s),
           s\<lparr>loggers := loggers s @
               [\<lparr>logger = (if zl_level l = Disabled then logger zl else l), config = config zl\<rparr>]\<rparr>)"
  using assms by (simp add: FromContext_def Ctx_def GetLevel_def)

lemma pair_first: "deref (loggers pair_state) 0 = Some (loggers pair_state ! 0)"
  by (simp add: deref_def pair_state_def)

lemma pair_second: "deref (loggers pair_state) 1 = Some (loggers pair_state ! 1)"
  by (simp add: deref_def pair_state_def)

lemma emit_same_logger:
  assumes "deref (loggers s) a = Some x" and "deref (loggers s) b = Some y"
    and "logger x = logger y"
  shows "emit a lvl err msg fs s = emit b lvl err msg fs s"
  using assms by (simp add: emit_def split: sum.splits)

text \<open>
  Claim C7, as stated, fails for an originating facade whose level is the disabled sentinel.
  Of the two facades of \<open>pair_state\<close>, the first is disabled: its \<open>WithContext\<close> on the
  empty carrier gives the carrier back with nothing bound, and \<open>FromContext\<close> of the second
  facade on it returns a facade on the second's own engine handle. That facade writes a
  record at \<open>Info\<close>; the originating facade writes none.
\<close>

theorem FromContext_disabled_originator_counterexample:
  "(\<exists>s. New ToLower level_names every_file_opens Map.empty [WithLevel ''disabled''] start = Inr (0, s) \<and>
        New ToLower level_names every_file_opens Map.empty [] s = Inr (1, pair_state)) \<and>
   WithContext 0 Background pair_state = Inr Background \<and>
   (\<exists>s'. FromContext 1 Background pair_state = Inr (2, s') \<and>
         map_option (zl_level \<circ> logger) (deref (loggers s') 2) = Some InfoLevel \<and>
         map_option (zl_level \<circ> logger) (deref (loggers s') 0) = Some Disabled \<and>
         (\<exists>s''. Info 2 ''hello'' [] s' = Inr s'' \<and> length (written s'') = 1) \<and>
         Info 0 ''hello'' [] s' = Inr s' \<and> written s' = [])"
proof -
  have w: "WithContext 0 Background pair_state = Inr Background"
    unfolding WithContext_def pair_first zerolog_WithContext_def
    by (simp add: pair_state_def)
  have f: "FromContext 1 Background pair_state
      = Inr (2, pair_state\<lparr>loggers := loggers pair_state @ [loggers pair_state ! 1]\<rparr>)"
    using FromContext_unbound [OF pair_second, of Background]
    by (simp add: pair_state_def)
  have e: "map_option (zl_level \<circ> logger)
        (deref (loggers (pair_state\<lparr>loggers := loggers pair_state @ [loggers pair_state ! 1]\<rparr>)) 2)
        = Some InfoLevel"
    "map_option (zl_level \<circ> logger)
        (deref (loggers (pair_state\<lparr>loggers := loggers pair_state @ [loggers pair_state ! 1]\<rparr>)) 0)
        = Some Disabled"
    "\<exists>s''. Info 2 ''hello'' []
        (pair_state\<lparr>loggers := loggers pair_state @ [loggers pair_state ! 1]\<rparr>) = Inr s'' \<and>
        length (written s'') = 1"
    "Info 0 ''hello'' [] (pair_state\<lparr>loggers := loggers pair_state @ [loggers pair_state ! 1]\<rparr>)
       = Inr (pair_state\<lparr>loggers := loggers pair_state @ [loggers pair_state ! 1]\<rparr>)"
    "written (pair_state\<lparr>loggers := loggers pair_state @ [loggers pair_state ! 1]\<rparr>) = []"
    by (simp_all add: Info_def emit_def deref_def pair_state_def convertFields_pairs should_def)
  from pair_state_made w f e show ?thesis by simp
qed

text \<open>
  Claim C7, amended. For a receiver \<open>z\<close> and an originating facade \<open>orig\<close> of the store and
  any carrier \<open>ctx\<close>: on a carrier with no binding, \<open>FromContext\<close> returns a new facade with
  the receiver's engine handle and configuration. \<open>WithContext\<close> returns the carrier itself
  or a new carrier over it, and changes neither the carrier nor the state. When the level of
  \<open>orig\<close> is not the disabled sentinel, \<open>FromContext\<close> on the carrier that \<open>WithContext\<close>
  of \<open>orig\<close> made returns a new facade with the engine handle of \<open>orig\<close> and the receiver's
  configuration, and whatever is emitted through it is what \<open>orig\<close> would emit.
\<close>

theorem FromContext_WithContext:
  assumes "deref (loggers s) z = Some zl" and "deref (loggers s) orig = Some ol"
  shows "(ctx_Value ctx = None \<longrightarrow>
            FromContext z ctx s = Inr (length (loggers s),
              s\<lparr>loggers := loggers s @ [\<lparr>logger = logger zl, config = config zl\<rparr>]\<rparr>)) \<and>
         (\<exists>ctx'. WithContext orig ctx s = Inr ctx' \<and>
            (ctx' = ctx \<or> ctx' = WithLogger ctx (logger ol)) \<and>
            (zl_level (logger ol) \<noteq> Disabled \<longrightarrow>
               (\<exists>s'. FromContext z ctx' s = Inr (length (loggers s), s') \<and>
                  s' = s\<lparr>loggers := loggers s @ [\<lparr>logger = logger ol, config = config zl\<rparr>]\<rparr> \<and>
                  deref (loggers s') orig = Some ol \<and>
                  (\<forall>lvl err msg fs.
                     emit (length (loggers s)) lvl err msg fs s' = emit orig lvl err msg fs s'))))"
proof -
  define ctx' where "ctx' = zerolog_WithContext (logger ol) ctx"
  define s' where "s' = s\<lparr>loggers := loggers s @ [\<lparr>logger = logger ol, config = config zl\<rparr>]\<rparr>"
  have w: "WithContext orig ctx s = Inr ctx'"
    using assms(2) by (simp add: WithContext_def ctx'_def)
  have shape: "ctx' = ctx \<or> ctx' = WithLogger ctx (logger ol)"
    by (simp add: ctx'_def zerolog_WithContext_def split: option.splits)
  from assms(2) have olt: "orig < length (loggers s)" by (rule deref_Some_less)
  have enabled: "FromContext z ctx' s = Inr (length (loggers s), s') \<and>
      deref (loggers s') orig = Some ol \<and>
      (\<forall>lvl err msg fs. emit (length (loggers s)) lvl err msg fs s' = emit orig lvl err msg fs s')"
    if en: "zl_level (logger ol) \<noteq> Disabled"
  proof -
    from en have v: "ctx_Value ctx' = Some (logger ol)"
      by (simp add: ctx'_def zerolog_WithContext_def split: option.splits)
    from FromContext_bound [OF assms(1) v] en
    have f: "FromContext z ctx' s = Inr (length (loggers s), s')"
      by (simp add: s'_def)
    have o: "deref (loggers s') orig = Some ol"
      using assms(2) olt by (simp add: s'_def deref_append)
    have n: "deref (loggers s') (length (loggers s))
        = Some \<lparr>logger = logger ol, config = config zl\<rparr>"
      by (simp add: s'_def deref_append)
    have "emit (length (loggers s)) lvl err msg fs s' = emit orig lvl err msg fs s'"
      for lvl err msg fs
      by (rule emit_same_logger [OF n o]) simp
    with f o show ?thesis by blast
  qed
  from FromContext_unbound [OF assms(1)] w shape enabled show ?thesis
    unfolding s'_def by blast
qed

theorem FromContext_WithContext_witness:
  "deref (loggers pair_state) 0 = Some (loggers pair_state ! 0) \<and>
   deref (loggers pair_state) 1 = Some (loggers pair_state ! 1) \<and>
   zl_level (logger (loggers pair_state ! 1)) \<noteq> Disabled \<and>
   ctx_Value (WithOther Background ''request'' (IntVal 7)) = None \<and>
   FromContext 0 (WithOther Background ''request'' (IntVal 7)) pair_state
     = Inr (2, pair_state\<lparr>loggers := loggers pair_state @ [loggers pair_state ! 0]\<rparr>) \<and>
   (\<exists>ctx' s'. WithContext 1 (WithOther Background ''request'' (IntVal 7)) pair_state = Inr ctx' \<and>
       FromContext 0 ctx' pair_state = Inr (2, s') \<and>
       map_option logger (deref (loggers s') 2) = map_option logger (deref (loggers s') 1) \<and>
       map_option config (deref (loggers s') 2) = map_option config (deref (loggers s') 0) \<and>
       Info 2 ''hello'' [] s' = Info 1 ''hello'' [] s')"
proof -
  let ?ctx = "WithOther Background ''request'' (IntVal 7)"
  have en: "zl_level (logger (loggers pair_state ! 1)) \<noteq> Disabled"
    by (simp add: pair_state_def)
  have len: "length (loggers pair_state) = 2" by (simp add: pair_state_def)
  have v: "ctx_Value ?ctx = None" by simp
  from FromContext_WithContext [OF pair_first pair_second, of ?ctx] en v len
  obtain ctx' s' where
    a: "FromContext 0 ?ctx pair_state
          = Inr (2, pair_state\<lparr>loggers := loggers pair_state @
              [\<lparr>logger = logger (loggers pair_state ! 0), config = config (loggers pair_state ! 0)\<rparr>]\<rparr>)"
    and b: "WithContext 1 ?ctx pair_state = Inr ctx'"
      "FromContext 0 ctx' pair_state = Inr (2, s')"
      "s' = pair_state\<lparr>loggers := loggers pair_state @
              [\<lparr>logger = logger (loggers pair_state ! 1), config = config (loggers pair_state ! 0)\<rparr>]\<rparr>"
      "\<forall>lvl err msg fs. emit 2 lvl err msg fs s' = emit 1 lvl err msg fs s'"
    by auto
  have c: "map_option logger (deref (loggers s') 2) = map_option logger (deref (loggers s') 1)"
    "map_option config (deref (loggers s') 2) = map_option config (deref (loggers s') 0)"
    by (simp_all add: b(3) deref_def pair_state_def)
  from a b c en v pair_first pair_second show ?thesis
    by (auto simp: Info_def)
qed

text \<open>
  Claim C10. A carrier that holds a logger at the disabled level is to \<open>FromContext\<close> like
  a carrier that holds none: the bound logger is dropped, and the facade returned has the
  receiver's own engine handle and configuration, as on any carrier without a binding.
\<close>

theorem FromContext_disabled_binding:
  assumes "deref (loggers s) z = Some zl" and "ctx_Value ctx = Some l" and "zl_level l = Disabled"
  shows "FromContext z ctx s = Inr (length (loggers s),
           s\<lparr>loggers := loggers s @ [\<lparr>logger = logger zl, config = config zl\<rparr>]\<rparr>) \<and>
         (\<forall>ctx'. ctx_Value ctx' = None \<longrightarrow> FromContext z ctx s = FromContext z ctx' s)"
  using assms by (simp add: FromContext_bound FromContext_unbound)

theorem FromContext_disabled_binding_witness:
  "\<exists>c1 c2 l.
     WithContext 1 Background pair_state = Inr c1 \<and>
     WithContext 0 c1 pair_state = Inr c2 \<and>
     ctx_Value c2 = Some l \<and> zl_level l = Disabled \<and>
     deref (loggers pair_state) 1 = Some (loggers pair_state ! 1) \<and>
     FromContext 1 c2 pair_state
       = Inr (2, pair_state\<lparr>loggers := loggers pair_state @ [loggers pair_state ! 1]\<rparr>) \<and>
     FromContext 1 c2 pair_state = FromContext 1 Background pair_state"
proof -
  define lB where "lB = logger (loggers pair_state ! 1)"
  define lA where "lA = logger (loggers pair_state ! 0)"
  have lvlB: "zl_level (logger (loggers pair_state ! 1)) = InfoLevel"
    by (simp add: pair_state_def)
  have 1: "WithContext 1 Background pair_state = Inr (WithLogger Background lB)"
    unfolding WithContext_def pair_second zerolog_WithContext_def lB_def
    using lvlB by simp
  have 2: "WithContext 0 (WithLogger Background lB) pair_state
             = Inr (WithLogger (WithLogger Background lB) lA)"
    unfolding WithContext_def pair_first zerolog_WithContext_def lA_def
    by simp
  have v: "ctx_Value (WithLogger (WithLogger Background lB) lA) = Some lA" by simp
  have d: "zl_level lA = Disabled" by (simp add: lA_def pair_state_def)
  have len: "length (loggers pair_state) = 2" by (simp add: pair_state_def)
  from FromContext_disabled_binding [OF pair_second v d] 1 2 v d pair_second len
  show ?thesis by auto
qed

end
